theory Spec2Isabelle
  imports Complex_Main
begin

section \<open>JavaScript values and the runtime\<close>

text \<open>
  The repository is JavaScript. Values that the dispatcher hands around without looking
  at their shape (provider results, idempotency records) are modelled as JavaScript
  values: an object is the list of its properties in insertion order. Strings are
  sequences of 8-bit code units.
\<close>

datatype jsval =
    JUndefined
  | JBool bool
  | JNum int
  | JStr string
  | JObj "(string \<times> jsval) list"

text \<open>Property read \<open>v.k\<close> on a value that is not \<open>undefined\<close>.\<close>

fun get_prop :: "jsval \<Rightarrow> string \<Rightarrow> jsval" where
  "get_prop (JObj fs) k = (case map_of fs k of Some v \<Rightarrow> v | None \<Rightarrow> JUndefined)"
| "get_prop v k = JUndefined"

text \<open>
  Object spread \<open>{...v}\<close>: the own properties of an object, nothing for \<open>undefined\<close>
  (the only other value \<open>sendWithRetry\<close> can produce).
\<close>

fun spread :: "jsval \<Rightarrow> (string \<times> jsval) list" where
  "spread (JObj fs) = fs"
| "spread v = []"

text \<open>
  Writing a property in an object literal after a spread: an existing key keeps its
  position and takes the new value, a new key is appended.
\<close>

fun set_prop :: "string \<Rightarrow> jsval \<Rightarrow> (string \<times> jsval) list \<Rightarrow> (string \<times> jsval) list" where
  "set_prop k v [] = [(k, v)]"
| "set_prop k v ((k', v') # fs) =
     (if k' = k then (k, v) # fs else (k', v') # set_prop k v fs)"

text \<open>
  Errors are values. Each constructor is one throw site; \<open>message\<close> gives the
  \<open>message\<close> property of the JavaScript \<open>Error\<close> object.
\<close>

datatype error =
    ValidationError string
  | RateLimitExceeded
  | ProviderError string
  | BreakerOpenError
  | TypeError string
  | AllProvidersFailed string

fun message :: "error \<Rightarrow> string" where
  "message (ValidationError m) = m"
| "message RateLimitExceeded = ''Rate limit exceeded''"
| "message (ProviderError m) = m"
| "message BreakerOpenError = ''Circuit breaker is OPEN''"
| "message (TypeError m) = m"
| "message (AllProvidersFailed m) = ''Failed to send email after trying all providers: '' @ m"

text \<open>
  The world outside the program: the clock behind \<open>Date.now()\<close>, the successive values
  of \<open>Math.random()\<close> and \<open>crypto.randomUUID()\<close>, the lateness of each timer, and the
  library functions SHA-256 (hex digest) and \<open>Date.prototype.toISOString\<close>, which are
  not code of this repository. \<open>trace\<close> is an observation log of breaker entries and
  provider calls, as a test spy would keep it; no branch of the program reads it.
\<close>

datatype event = ExecuteCall string | ProviderSend string

record world =
  clock :: int
  random_src :: "nat \<Rightarrow> rat"
  random_pos :: nat
  uuid_src :: "nat \<Rightarrow> string"
  uuid_pos :: nat
  lag_src :: "nat \<Rightarrow> nat"
  timers :: nat
  sha256hex :: "string \<Rightarrow> string"
  toISOString :: "int \<Rightarrow> string"
  trace :: "event list"

definition Math_random :: "world \<Rightarrow> rat \<times> world" where
  "Math_random w = (random_src w (random_pos w), w\<lparr>random_pos := Suc (random_pos w)\<rparr>)"

definition randomUUID :: "world \<Rightarrow> string \<times> world" where
  "randomUUID w = (uuid_src w (uuid_pos w), w\<lparr>uuid_pos := Suc (uuid_pos w)\<rparr>)"

text \<open>
  \<open>await delay(ms)\<close>: a timer fires no earlier than \<open>ms\<close> milliseconds after it was set,
  and possibly later; all time that passes during a call passes in its timers.
\<close>

definition delay :: "rat \<Rightarrow> world \<Rightarrow> world" where
  "delay ms w = w\<lparr>clock := clock w + max 0 \<lceil>ms\<rceil> + int (lag_src w (timers w)),
                  timers := Suc (timers w)\<rparr>"

definition emit :: "event \<Rightarrow> world \<Rightarrow> world" where
  "emit ev w = w\<lparr>trace := trace w @ [ev]\<rparr>"

text \<open>\<open>x || d\<close> on an optional number: a missing value and zero are both falsy.\<close>

definition or_default :: "'a::zero option \<Rightarrow> 'a \<Rightarrow> 'a" where
  "or_default x d = (case x of None \<Rightarrow> d | Some v \<Rightarrow> if v = 0 then d else v)"

text \<open>\<open>s || d\<close> on an optional string: a missing value and the empty string are falsy.\<close>

definition str_or :: "string option \<Rightarrow> string \<Rightarrow> string" where
  "str_or x d = (case x of None \<Rightarrow> d | Some v \<Rightarrow> if v = [] then d else v)"

section \<open>Requests\<close>

text \<open>
  An email as the dispatcher reads it. A missing \<open>to\<close>, \<open>subject\<close> or \<open>body\<close> is the
  empty string (both are falsy, and \<open>validateEmail\<close> rejects them before anything else
  reads the field); \<open>sender\<close> is the optional \<open>from\<close> field.
\<close>

record email =
  to :: string
  subject :: string
  body :: string
  sender :: "string option"

record send_options =
  idempotencyKey :: "string option"
  priority :: "int option"
  maxAttempts :: "nat option"

section \<open>MockEmailProvider.js\<close>

record MockEmailProvider =
  name :: string
  failureRate :: rat
  latency :: int
  isHealthy :: bool

record provider_config =
  cfg_name :: string
  cfg_failureRate :: "rat option"
  cfg_latency :: "int option"
  cfg_isHealthy :: "bool option"

text \<open>The constructor, as \<open>initializeProviders\<close> calls it: \<open>new MockEmailProvider(config.name, config)\<close>.\<close>

definition new_MockEmailProvider :: "provider_config \<Rightarrow> MockEmailProvider" where
  "new_MockEmailProvider c =
     \<lparr>name = cfg_name c,
      failureRate = or_default (cfg_failureRate c) (1 / 10),
      latency = or_default (cfg_latency c) 100,
      isHealthy = (cfg_isHealthy c \<noteq> Some False)\<rparr>"

definition setHealth :: "bool \<Rightarrow> MockEmailProvider \<Rightarrow> MockEmailProvider" where
  "setHealth healthy p = p\<lparr>isHealthy := healthy\<rparr>"

definition setFailureRate :: "rat \<Rightarrow> MockEmailProvider \<Rightarrow> MockEmailProvider" where
  "setFailureRate rate p = p\<lparr>failureRate := max 0 (min 1 rate)\<rparr>"

definition provider_failed :: "MockEmailProvider \<Rightarrow> error" where
  "provider_failed p = ProviderError (name p @ '' provider failed: Service temporarily unavailable'')"

text \<open>
  \<open>MockEmailProvider.sendEmail\<close>. \<open>Math.random()\<close> is only drawn when the provider is
  healthy (\<open>||\<close> short-circuits).
\<close>

definition provider_sendEmail :: "MockEmailProvider \<Rightarrow> email \<Rightarrow> world \<Rightarrow> (error + jsval) \<times> world" where
  "provider_sendEmail p e w0 =
     (let w1 = delay (of_int (latency p)) (emit (ProviderSend (name p)) w0) in
      if \<not> isHealthy p then (Inl (provider_failed p), w1)
      else
        let (r, w2) = Math_random w1 in
        if r < failureRate p then (Inl (provider_failed p), w2)
        else
          let (u, w3) = randomUUID w2 in
          (Inr (JObj [(''success'', JBool True),
                      (''messageId'', JStr (name p @ ''-'' @ u)),
                      (''provider'', JStr (name p)),
                      (''timestamp'', JStr (toISOString w3 (clock w3))),
                      (''email'', JObj [(''to'', JStr (to e)), (''subject'', JStr (subject e))])]),
           w3))"

section \<open>RateLimiter.js\<close>

record RateLimiter =
  limit :: int
  window :: int
  tokens :: int
  lastRefill :: int
  requests :: "string \<rightharpoonup> int list"

text \<open>\<open>new RateLimiter({limit, window})\<close> at time \<open>now\<close>.\<close>

definition new_RateLimiter :: "int option \<Rightarrow> int option \<Rightarrow> int \<Rightarrow> RateLimiter" where
  "new_RateLimiter opt_limit opt_window now =
     \<lparr>limit = or_default opt_limit 100,
      window = or_default opt_window 60000,
      tokens = or_default opt_limit 100,
      lastRefill = now,
      requests = Map.empty\<rparr>"

definition refillTokens :: "int \<Rightarrow> RateLimiter \<Rightarrow> RateLimiter" where
  "refillTokens now rl =
     (if now - lastRefill rl \<ge> window rl then rl\<lparr>tokens := limit rl, lastRefill := now\<rparr> else rl)"

text \<open>The default parameter \<open>identifier = 'default'\<close>.\<close>

definition ident_or_default :: "string option \<Rightarrow> string" where
  "ident_or_default identifier = (case identifier of None \<Rightarrow> ''default'' | Some i \<Rightarrow> i)"

definition recentRequests :: "string \<Rightarrow> int \<Rightarrow> RateLimiter \<Rightarrow> int list" where
  "recentRequests ident now rl =
     (let requestHistory = (case requests rl ident of None \<Rightarrow> [] | Some h \<Rightarrow> h);
          windowStart = now - window rl
      in filter (\<lambda>time. time > windowStart) requestHistory)"

definition isAllowed :: "string option \<Rightarrow> int \<Rightarrow> RateLimiter \<Rightarrow> bool \<times> RateLimiter" where
  "isAllowed identifier now rl0 =
     (let ident = ident_or_default identifier;
          rl = refillTokens now rl0;
          recent = recentRequests ident now rl
      in if int (length recent) \<ge> limit rl then (False, rl)
         else (True, rl\<lparr>requests := (requests rl)(ident \<mapsto> recent @ [now])\<rparr>))"

definition getRemaining :: "string option \<Rightarrow> int \<Rightarrow> RateLimiter \<Rightarrow> int" where
  "getRemaining identifier now rl =
     max 0 (limit rl - int (length (recentRequests (ident_or_default identifier) now rl)))"

definition reset :: "string option \<Rightarrow> RateLimiter \<Rightarrow> RateLimiter" where
  "reset identifier rl = rl\<lparr>requests := (requests rl)(ident_or_default identifier := None)\<rparr>"

section \<open>CircuitBreaker.js\<close>

text \<open>
  \<open>src/CircuitBreaker.js\<close> is not among the repository's files; only its tests and its
  caller are. The breaker below follows the specification's section 4.2 sentence by
  sentence, and agrees with every assertion of the breaker's tests.
\<close>

datatype CircuitState = CLOSED | OPEN | HALF_OPEN

record CircuitBreaker =
  state :: CircuitState
  failureCount :: nat
  nextAttemptTime :: "int option"
  failureThreshold :: nat
  resetTimeout :: int

text \<open>
  Modelled from the spec: the constructor of the missing \<open>CircuitBreaker\<close> class. A new
  breaker is CLOSED with no failures (the tests assert it).
\<close>

definition new_CircuitBreaker :: "nat \<Rightarrow> int \<Rightarrow> CircuitBreaker" where
  "new_CircuitBreaker threshold timeout =
     \<lparr>state = CLOSED, failureCount = 0, nextAttemptTime = None,
      failureThreshold = threshold, resetTimeout = timeout\<rparr>"

text \<open>
  Modelled from the spec: entry into \<open>execute\<close> of the missing \<open>CircuitBreaker\<close> class.
  CLOSED lets the call through. OPEN rejects any call before \<open>nextAttemptTime\<close>; at or
  after it the state becomes HALF_OPEN and the call proceeds as the probe. While a probe
  is in flight (HALF_OPEN at entry) other callers are rejected as if still OPEN.
  \<open>None\<close> is the rejection.
\<close>

definition enter :: "int \<Rightarrow> CircuitBreaker \<Rightarrow> CircuitBreaker option" where
  "enter now cb =
     (case state cb of
        CLOSED \<Rightarrow> Some cb
      | OPEN \<Rightarrow>
          (case nextAttemptTime cb of
             Some t \<Rightarrow> if now < t then None else Some (cb\<lparr>state := HALF_OPEN\<rparr>)
           | None \<Rightarrow> Some (cb\<lparr>state := HALF_OPEN\<rparr>))
      | HALF_OPEN \<Rightarrow> None)"

text \<open>
  Modelled from the spec: the outcome handlers of the missing \<open>CircuitBreaker\<close> class.
  Success resets \<open>failureCount\<close> to 0 and closes the breaker. A failure while CLOSED
  increments \<open>failureCount\<close> and, once it reaches the threshold, opens the breaker with
  \<open>nextAttemptTime = now + resetTimeout\<close>; a failed probe opens it again with a fresh
  \<open>nextAttemptTime\<close>.
\<close>

definition onSuccess :: "CircuitBreaker \<Rightarrow> CircuitBreaker" where
  "onSuccess cb = cb\<lparr>state := CLOSED, failureCount := 0\<rparr>"

definition onFailure :: "int \<Rightarrow> CircuitBreaker \<Rightarrow> CircuitBreaker" where
  "onFailure now cb =
     (case state cb of
        HALF_OPEN \<Rightarrow> cb\<lparr>state := OPEN, nextAttemptTime := Some (now + resetTimeout cb)\<rparr>
      | _ \<Rightarrow>
          (let cb1 = cb\<lparr>failureCount := Suc (failureCount cb)\<rparr> in
           if failureCount cb1 \<ge> failureThreshold cb1
           then cb1\<lparr>state := OPEN, nextAttemptTime := Some (now + resetTimeout cb1)\<rparr>
           else cb1))"

text \<open>
  Modelled from the spec: \<open>execute(operation)\<close> of the missing \<open>CircuitBreaker\<close> class.
  A rejected call fails with the breaker-open error and the operation never runs;
  otherwise the operation runs and its outcome is both recorded and passed on.
\<close>

definition execute ::
  "(world \<Rightarrow> (error + jsval) \<times> world) \<Rightarrow> CircuitBreaker \<Rightarrow> world
     \<Rightarrow> (error + jsval) \<times> CircuitBreaker \<times> world" where
  "execute operation cb w =
     (case enter (clock w) cb of
        None \<Rightarrow> (Inl BreakerOpenError, cb, w)
      | Some cb1 \<Rightarrow>
          (case operation w of
             (Inr r, w') \<Rightarrow> (Inr r, onSuccess cb1, w')
           | (Inl err, w') \<Rightarrow> (Inl err, onFailure (clock w') cb1, w')))"

section \<open>EmailService.js\<close>

record EmailService =
  maxRetries :: nat
  baseDelay :: int
  maxDelay :: int
  providers :: "MockEmailProvider list"
  currentProviderIndex :: nat
  rateLimiter :: RateLimiter
  circuitBreakers :: "nat \<rightharpoonup> CircuitBreaker"
  sentEmails :: "string \<rightharpoonup> (string \<times> jsval) list"
  idempotencyTtl :: int

record service_options =
  opt_maxRetries :: "nat option"
  opt_baseDelay :: "int option"
  opt_maxDelay :: "int option"
  opt_providers :: "provider_config list option"
  opt_rateLimit :: "int option"
  opt_rateLimitWindow :: "int option"
  opt_circuitBreakerThreshold :: "nat option"
  opt_circuitBreakerTimeout :: "int option"
  opt_idempotencyTtl :: "int option"

definition initializeProviders :: "provider_config list option \<Rightarrow> MockEmailProvider list" where
  "initializeProviders providerConfigs =
     (let defaultProviders =
            [\<lparr>cfg_name = ''Provider-A'', cfg_failureRate = Some (1 / 10),
              cfg_latency = Some 100, cfg_isHealthy = None\<rparr>,
             \<lparr>cfg_name = ''Provider-B'', cfg_failureRate = Some (15 / 100),
              cfg_latency = Some 200, cfg_isHealthy = None\<rparr>];
          configs = (case providerConfigs of None \<Rightarrow> defaultProviders | Some cs \<Rightarrow> cs)
      in map new_MockEmailProvider configs)"

text \<open>The constructor \<open>new EmailService(options)\<close>, run at time \<open>now\<close>.\<close>

definition new_EmailService :: "service_options \<Rightarrow> int \<Rightarrow> EmailService" where
  "new_EmailService options now =
     (let ps = initializeProviders (opt_providers options) in
      \<lparr>maxRetries = or_default (opt_maxRetries options) 3,
       baseDelay = or_default (opt_baseDelay options) 1000,
       maxDelay = or_default (opt_maxDelay options) 10000,
       providers = ps,
       currentProviderIndex = 0,
       rateLimiter = new_RateLimiter (Some (or_default (opt_rateLimit options) 100))
                       (Some (or_default (opt_rateLimitWindow options) 60000)) now,
       circuitBreakers =
         (\<lambda>index. if index < length ps
                   then Some (new_CircuitBreaker
                                (or_default (opt_circuitBreakerThreshold options) 5)
                                (or_default (opt_circuitBreakerTimeout options) 60000))
                   else None),
       sentEmails = Map.empty,
       idempotencyTtl = or_default (opt_idempotencyTtl options) 3600000\<rparr>)"

subsection \<open>Validation\<close>

text \<open>
  The whitespace class \<open>\s\<close> restricted to 8-bit code units: tab, line feed, vertical
  tab, form feed, carriage return, space and no-break space.
\<close>

definition is_space :: "char \<Rightarrow> bool" where
  "is_space c = (c \<in> {CHR 0x09, CHR 0x0A, CHR 0x0B, CHR 0x0C, CHR 0x0D, CHR 0x20, CHR 0xA0})"

text \<open>One character of the class \<open>[^\s@]\<close>.\<close>

definition atom_char :: "char \<Rightarrow> bool" where
  "atom_char c = (\<not> is_space c \<and> c \<noteq> CHR ''@'')"

text \<open>
  \<open>/^[^\s@]+@[^\s@]+\.[^\s@]+$/.test(s)\<close>: a non-empty local part, one \<open>@\<close>, and a
  domain of class characters that has a dot with at least one character on each side.
\<close>

definition emailRegex :: "string \<Rightarrow> bool" where
  "emailRegex s =
     (let local_part = takeWhile (\<lambda>c. c \<noteq> CHR ''@'') s;
          rest = dropWhile (\<lambda>c. c \<noteq> CHR ''@'') s
      in case rest of
           [] \<Rightarrow> False
         | at_sign # domain_part \<Rightarrow>
             local_part \<noteq> [] \<and> list_all atom_char local_part \<and>
             list_all atom_char domain_part \<and> CHR ''.'' \<in> set (butlast (tl domain_part)))"

text \<open>
  \<open>validateEmail\<close>: \<open>None\<close> when the email passes, otherwise the error thrown. The
  argument is an object by its type, so the first check of the source cannot fail.
\<close>

definition validateEmail :: "email \<Rightarrow> error option" where
  "validateEmail e =
     (if to e = [] then Some (ValidationError ''Email to is required'')
      else if subject e = [] then Some (ValidationError ''Email subject is required'')
      else if body e = [] then Some (ValidationError ''Email body is required'')
      else if \<not> emailRegex (to e) then Some (ValidationError ''Invalid email address format'')
      else None)"

subsection \<open>Idempotency\<close>

definition hex_digit :: "nat \<Rightarrow> char" where
  "hex_digit n = ''0123456789abcdef'' ! (n mod 16)"

text \<open>\<open>JSON.stringify\<close> of one character inside a string.\<close>

definition json_escape :: "char \<Rightarrow> string" where
  "json_escape c =
     (if c = CHR 0x22 then [CHR 0x5C, CHR 0x22]
      else if c = CHR 0x5C then [CHR 0x5C, CHR 0x5C]
      else if c = CHR 0x08 then [CHR 0x5C, CHR ''b'']
      else if c = CHR 0x0C then [CHR 0x5C, CHR ''f'']
      else if c = CHR 0x0A then [CHR 0x5C, CHR ''n'']
      else if c = CHR 0x0D then [CHR 0x5C, CHR ''r'']
      else if c = CHR 0x09 then [CHR 0x5C, CHR ''t'']
      else if of_char c < (32::nat)
        then [CHR 0x5C, CHR ''u'', CHR ''0'', CHR ''0'',
              hex_digit (of_char c div 16), hex_digit (of_char c)]
      else [c])"

definition json_string :: "string \<Rightarrow> string" where
  "json_string s = [CHR 0x22] @ concat (map json_escape s) @ [CHR 0x22]"

text \<open>
  \<open>generateIdempotencyKey\<close>: the SHA-256 hex digest of the JSON text of
  \<open>{to, subject, body, from}\<close>; an undefined \<open>from\<close> is left out of the JSON text.
\<close>

definition generateIdempotencyKey :: "email \<Rightarrow> world \<Rightarrow> string" where
  "generateIdempotencyKey e w =
     (let content =
            ''{'' @ json_string ''to'' @ '':'' @ json_string (to e) @
            '','' @ json_string ''subject'' @ '':'' @ json_string (subject e) @
            '','' @ json_string ''body'' @ '':'' @ json_string (body e) @
            (case sender e of
               None \<Rightarrow> []
             | Some f \<Rightarrow> '','' @ json_string ''from'' @ '':'' @ json_string f) @
            ''}''
      in sha256hex w content)"

text \<open>The fingerprint of a request: \<open>options.idempotencyKey || this.generateIdempotencyKey(email)\<close>.\<close>

definition fingerprint :: "email \<Rightarrow> send_options \<Rightarrow> world \<Rightarrow> string" where
  "fingerprint e options w =
     (case idempotencyKey options of
        None \<Rightarrow> generateIdempotencyKey e w
      | Some k \<Rightarrow> if k = [] then generateIdempotencyKey e w else k)"

text \<open>
  \<open>Date.now() - record.timestamp > this.idempotencyTtl\<close>. Every stored record has a
  numeric timestamp; a comparison with anything else is false in JavaScript.
\<close>

definition expired :: "int \<Rightarrow> int \<Rightarrow> (string \<times> jsval) list \<Rightarrow> bool" where
  "expired now ttl record =
     (case map_of record ''timestamp'' of Some (JNum t) \<Rightarrow> now - t > ttl | _ \<Rightarrow> False)"

definition isDuplicate :: "string \<Rightarrow> int \<Rightarrow> EmailService \<Rightarrow> bool \<times> EmailService" where
  "isDuplicate key now s =
     (case sentEmails s key of
        None \<Rightarrow> (False, s)
      | Some record \<Rightarrow>
          if expired now (idempotencyTtl s) record
          then (False, s\<lparr>sentEmails := (sentEmails s)(key := None)\<rparr>)
          else (True, s))"

definition trackSentEmail :: "string \<Rightarrow> jsval \<Rightarrow> int \<Rightarrow> EmailService \<Rightarrow> EmailService" where
  "trackSentEmail key result now s =
     s\<lparr>sentEmails := (sentEmails s)(key \<mapsto> set_prop ''timestamp'' (JNum now) (spread result))\<rparr>"

definition cleanup :: "int \<Rightarrow> EmailService \<Rightarrow> EmailService" where
  "cleanup now s =
     s\<lparr>sentEmails :=
         (\<lambda>key. case sentEmails s key of
                  None \<Rightarrow> None
                | Some record \<Rightarrow>
                    if expired now (idempotencyTtl s) record then None else Some record)\<rparr>"

text \<open>\<open>this.sentEmails.get(key)\<close> as a value.\<close>

definition sentEmails_get :: "string \<Rightarrow> EmailService \<Rightarrow> jsval" where
  "sentEmails_get key s = (case sentEmails s key of None \<Rightarrow> JUndefined | Some record \<Rightarrow> JObj record)"

subsection \<open>Retry and fallback\<close>

definition calculateDelay :: "nat \<Rightarrow> EmailService \<Rightarrow> world \<Rightarrow> rat \<times> world" where
  "calculateDelay attempt s w =
     (let exponentialDelay = of_int (baseDelay s) * 2 ^ (attempt - 1);
          (r, w') = Math_random w;
          jitter = r * (1 / 10) * exponentialDelay
      in (min (exponentialDelay + jitter) (of_int (maxDelay s)), w'))"

text \<open>
  One attempt: \<open>circuitBreaker.execute(async () => provider.sendEmail(email))\<close>. The
  breaker is the object stored for the provider's index; the attempt returns it as the
  call left it. Without a breaker the method call itself throws inside the \<open>try\<close>.
\<close>

definition guarded_send ::
  "email \<Rightarrow> MockEmailProvider \<Rightarrow> CircuitBreaker option \<Rightarrow> world
     \<Rightarrow> (error + jsval) \<times> CircuitBreaker option \<times> world" where
  "guarded_send e p circuitBreaker w =
     (case circuitBreaker of
        None \<Rightarrow> (Inl (TypeError ''Cannot read properties of undefined (reading execute)''), None, w)
      | Some cb \<Rightarrow>
          (case execute (provider_sendEmail p e) cb (emit (ExecuteCall (name p)) w) of
             (r, cb', w') \<Rightarrow> (r, Some cb', w')))"

text \<open>
  The loop of \<open>sendWithRetry\<close>, entered with \<open>attempt\<close>: every attempt is a call of
  its own through the breaker. A loop that ends without an attempt returns
  \<open>undefined\<close>. The source's \<open>idempotencyKey\<close> parameter is never read.
\<close>

function sendWithRetry_from ::
  "nat \<Rightarrow> EmailService \<Rightarrow> email \<Rightarrow> MockEmailProvider \<Rightarrow> CircuitBreaker option \<Rightarrow> world
     \<Rightarrow> (error + jsval) \<times> CircuitBreaker option \<times> world" where
  "sendWithRetry_from attempt s e p cb w =
     (if attempt \<le> maxRetries s then
        (case guarded_send e p cb w of
           (Inr r, cb', w') \<Rightarrow> (Inr r, cb', w')
         | (Inl err, cb', w') \<Rightarrow>
             if attempt = maxRetries s then (Inl err, cb', w')
             else (case calculateDelay attempt s w' of
                     (d, w'') \<Rightarrow> sendWithRetry_from (Suc attempt) s e p cb' (delay d w'')))
      else (Inr JUndefined, cb, w))"
  by pat_completeness auto
termination
  by (relation "measure (\<lambda>(attempt, s, e, p, cb, w). Suc (maxRetries s) - attempt)") auto

definition sendWithRetry ::
  "EmailService \<Rightarrow> email \<Rightarrow> MockEmailProvider \<Rightarrow> CircuitBreaker option \<Rightarrow> world
     \<Rightarrow> (error + jsval) \<times> CircuitBreaker option \<times> world" where
  "sendWithRetry = sendWithRetry_from 1"

text \<open>The breaker object of a provider after a call has mutated it.\<close>

definition store_breaker :: "nat \<Rightarrow> CircuitBreaker option \<Rightarrow> EmailService \<Rightarrow> EmailService" where
  "store_breaker index cb s =
     (case cb of
        None \<Rightarrow> s
      | Some c \<Rightarrow> s\<lparr>circuitBreakers := (circuitBreakers s)(index \<mapsto> c)\<rparr>)"

text \<open>
  The provider loop of \<open>sendEmail\<close>, entered with \<open>providerIndex\<close> and \<open>lastError\<close>.
  After a success the source builds a log entry that reads \<open>result.messageId\<close>; for
  an \<open>undefined\<close> result that read throws inside the \<open>try\<close>, after the preference and
  the record have been written. With no provider at all \<open>lastError\<close> is still
  \<open>undefined\<close> when its message is read.
\<close>

function try_providers ::
  "nat \<Rightarrow> error option \<Rightarrow> email \<Rightarrow> string \<Rightarrow> EmailService \<Rightarrow> world
     \<Rightarrow> (error + jsval) \<times> EmailService \<times> world" where
  "try_providers providerIndex lastError e key s w =
     (if providerIndex < length (providers s) then
        (let actualProviderIndex = (currentProviderIndex s + providerIndex) mod length (providers s);
             provider = providers s ! actualProviderIndex;
             circuitBreaker = circuitBreakers s actualProviderIndex
         in case sendWithRetry s e provider circuitBreaker w of
              (Inr result, cb', w') \<Rightarrow>
                (let s1 = (store_breaker actualProviderIndex cb' s)
                            \<lparr>currentProviderIndex := actualProviderIndex\<rparr>;
                     s2 = trackSentEmail key result (clock w') s1
                 in if result = JUndefined
                    then try_providers (Suc providerIndex)
                           (Some (TypeError ''Cannot read properties of undefined (reading messageId)''))
                           e key s2 w'
                    else (Inr result, s2, w'))
            | (Inl err, cb', w') \<Rightarrow>
                try_providers (Suc providerIndex) (Some err) e key
                  (store_breaker actualProviderIndex cb' s) w')
      else
        (case lastError of
           None \<Rightarrow> (Inl (TypeError ''Cannot read properties of undefined (reading message)''), s, w)
         | Some err \<Rightarrow> (Inl (AllProvidersFailed (message err)), s, w)))"
  by pat_completeness auto
termination
  by (relation "measure (\<lambda>(providerIndex, lastError, e, key, s, w). length (providers s) - providerIndex)")
     (auto simp: trackSentEmail_def store_breaker_def split: option.splits)

text \<open>\<open>EmailService.sendEmail(email, options)\<close>.\<close>

definition sendEmail ::
  "email \<Rightarrow> send_options \<Rightarrow> EmailService \<Rightarrow> world \<Rightarrow> (error + jsval) \<times> EmailService \<times> world" where
  "sendEmail e options s w =
     (case validateEmail e of
        Some err \<Rightarrow> (Inl err, s, w)
      | None \<Rightarrow>
          (let key = fingerprint e options w in
           case isDuplicate key (clock w) s of
             (True, s1) \<Rightarrow> (Inr (sentEmails_get key s1), s1, w)
           | (False, s1) \<Rightarrow>
               (case isAllowed (Some (str_or (sender e) ''default'')) (clock w) (rateLimiter s1) of
                  (False, rl) \<Rightarrow> (Inl RateLimitExceeded, s1\<lparr>rateLimiter := rl\<rparr>, w)
                | (True, rl) \<Rightarrow> try_providers 0 None e key (s1\<lparr>rateLimiter := rl\<rparr>) w)))"

section \<open>EmailQueue.js\<close>

datatype item_status = Pending | Processing | Completed | Failed

text \<open>
  A queue item. \<open>item_id\<close> stands for the string \<open>queue-<Date.now()>-<random digits>\<close>
  of \<open>generateId\<close>: the clock value and the random draw it is built from.
\<close>

record queue_item =
  item_id :: "int \<times> rat"
  item_email :: email
  item_options :: send_options
  attempts :: nat
  item_maxAttempts :: nat
  item_priority :: int
  createdAt :: int
  status :: item_status
  item_result :: "jsval option"
  completedAt :: "int option"
  item_error :: "string option"
  failedAt :: "int option"
  nextAttempt :: "int option"

record queue_stats =
  processed :: int
  failed :: int
  pending :: int

record EmailQueue =
  queue :: "queue_item list"
  processing :: bool
  processInterval :: int
  maxConcurrency :: nat
  retryAttempts :: nat
  stats :: queue_stats
  emailService :: EmailService

definition new_EmailQueue :: "EmailService \<Rightarrow> int option \<Rightarrow> nat option \<Rightarrow> nat option \<Rightarrow> EmailQueue" where
  "new_EmailQueue service opt_interval opt_concurrency opt_attempts =
     \<lparr>queue = [], processing = False,
      processInterval = or_default opt_interval 1000,
      maxConcurrency = or_default opt_concurrency 5,
      retryAttempts = or_default opt_attempts 3,
      stats = \<lparr>processed = 0, failed = 0, pending = 0\<rparr>,
      emailService = service\<rparr>"

text \<open>
  \<open>Array.prototype.sort\<close> with a comparator: a stable sort. Each element goes behind
  every element already placed that does not compare greater.
\<close>

fun insert_sorted :: "('a \<Rightarrow> 'a \<Rightarrow> int) \<Rightarrow> 'a \<Rightarrow> 'a list \<Rightarrow> 'a list" where
  "insert_sorted cmp x [] = [x]"
| "insert_sorted cmp x (y # ys) =
     (if cmp x y < 0 then x # y # ys else y # insert_sorted cmp x ys)"

definition array_sort :: "('a \<Rightarrow> 'a \<Rightarrow> int) \<Rightarrow> 'a list \<Rightarrow> 'a list" where
  "array_sort cmp xs = foldl (\<lambda>sorted_part x. insert_sorted cmp x sorted_part) [] xs"

text \<open>The comparator of \<open>sortQueue\<close>.\<close>

definition compare_items :: "queue_item \<Rightarrow> queue_item \<Rightarrow> int" where
  "compare_items a b =
     (if item_priority a \<noteq> item_priority b then item_priority b - item_priority a
      else createdAt a - createdAt b)"

definition sortQueue :: "EmailQueue \<Rightarrow> EmailQueue" where
  "sortQueue q = q\<lparr>queue := array_sort compare_items (queue q)\<rparr>"

definition generateId :: "world \<Rightarrow> (int \<times> rat) \<times> world" where
  "generateId w = (let (r, w') = Math_random w in ((clock w, r), w'))"

text \<open>\<open>addEmail(email, options)\<close>: the new item's id, the queue and the world.\<close>

definition addEmail :: "email \<Rightarrow> send_options \<Rightarrow> EmailQueue \<Rightarrow> world \<Rightarrow> (int \<times> rat) \<times> EmailQueue \<times> world" where
  "addEmail e options q w =
     (let (new_id, w') = generateId w;
          queueItem =
            \<lparr>item_id = new_id, item_email = e, item_options = options, attempts = 0,
             item_maxAttempts = or_default (maxAttempts options) (retryAttempts q),
             item_priority = or_default (priority options) 0,
             createdAt = clock w', status = Pending, item_result = None,
             completedAt = None, item_error = None, failedAt = None, nextAttempt = None\<rparr>;
          q1 = sortQueue (q\<lparr>queue := queue q @ [queueItem]\<rparr>)
      in (new_id, q1\<lparr>stats := (stats q1)\<lparr>pending := pending (stats q1) + 1\<rparr>\<rparr>, w'))"

definition calculateRetryDelay :: "nat \<Rightarrow> int" where
  "calculateRetryDelay attempt = min (1000 * 2 ^ (attempt - 1)) 30000"

text \<open>
  \<open>processQueueItem\<close> on the item at position \<open>i\<close> of the queue (the source holds the
  item object itself and mutates it in place).
\<close>

definition processQueueItem :: "nat \<Rightarrow> EmailQueue \<Rightarrow> world \<Rightarrow> EmailQueue \<times> world" where
  "processQueueItem i q w =
     (let item0 = queue q ! i;
          item1 = item0\<lparr>status := Processing, attempts := Suc (attempts item0)\<rparr>
      in case sendEmail (item_email item1) (item_options item1) (emailService q) w of
           (Inr r, service', w') \<Rightarrow>
             (let item2 = item1\<lparr>status := Completed, item_result := Some r,
                                completedAt := Some (clock w')\<rparr>
              in (q\<lparr>queue := (queue q)[i := item2],
                    stats := (stats q)\<lparr>processed := processed (stats q) + 1,
                                       pending := pending (stats q) - 1\<rparr>,
                    emailService := service'\<rparr>, w'))
         | (Inl err, service', w') \<Rightarrow>
             if attempts item1 \<ge> item_maxAttempts item1
             then
               (let item2 = item1\<lparr>status := Failed, item_error := Some (message err),
                                  failedAt := Some (clock w')\<rparr>
                in (q\<lparr>queue := (queue q)[i := item2],
                      stats := (stats q)\<lparr>failed := failed (stats q) + 1,
                                         pending := pending (stats q) - 1\<rparr>,
                      emailService := service'\<rparr>, w'))
             else
               (let item2 = item1\<lparr>status := Pending,
                                  nextAttempt := Some (clock w' + calculateRetryDelay (attempts item1))\<rparr>
                in (q\<lparr>queue := (queue q)[i := item2], emailService := service'\<rparr>, w')))"

definition cleanupQueue :: "int \<Rightarrow> EmailQueue \<Rightarrow> EmailQueue" where
  "cleanupQueue now q =
     (let maxAge = 24 * 60 * 60 * 1000 in
      q\<lparr>queue :=
          filter (\<lambda>item.
                    if status item = Completed \<or> status item = Failed
                    then now - (case completedAt item of
                                  Some t \<Rightarrow> t
                                | None \<Rightarrow> (case failedAt item of Some t \<Rightarrow> t | None \<Rightarrow> createdAt item))
                         < maxAge
                    else True)
                 (queue q)\<rparr>)"

text \<open>
  The selection of \<open>processQueue\<close>, as positions in the queue:
  \<open>this.queue.filter(item => item.status === 'pending').slice(0, this.maxConcurrency)\<close>.
\<close>

definition itemsToProcess :: "EmailQueue \<Rightarrow> nat list" where
  "itemsToProcess q =
     take (maxConcurrency q) (filter (\<lambda>i. status (queue q ! i) = Pending) [0..<length (queue q)])"

text \<open>
  One pass of \<open>processQueue\<close>. The source starts the selected items together and waits
  for all of them; the model runs them one after the other in selection order.
\<close>

definition processQueue :: "EmailQueue \<Rightarrow> world \<Rightarrow> EmailQueue \<times> world" where
  "processQueue q w =
     (if queue q = [] then (q, w)
      else
        (let selected = itemsToProcess q in
         if selected = [] then (q, w)
         else
           (case foldl (\<lambda>(q', w') i. processQueueItem i q' w') (q, w) selected of
              (q1, w1) \<Rightarrow> (cleanupQueue (clock w1) q1, w1))))"

section \<open>Notions used in the statements\<close>

text \<open>
  A provider that fails on every call: it is unhealthy, or its failure rate is at least
  1 (every value of \<open>Math.random()\<close> is below 1). A provider that succeeds on every
  call: it is healthy and its failure rate is at most 0.
\<close>

definition always_fails :: "MockEmailProvider \<Rightarrow> bool" where
  "always_fails p = (\<not> isHealthy p \<or> failureRate p \<ge> 1)"

definition always_succeeds :: "MockEmailProvider \<Rightarrow> bool" where
  "always_succeeds p = (isHealthy p \<and> failureRate p \<le> 0)"

text \<open>\<open>Math.random()\<close> returns values in the half-open unit interval.\<close>

definition random_unit :: "world \<Rightarrow> bool" where
  "random_unit w = (\<forall>n. 0 \<le> random_src w n \<and> random_src w n < 1)"

text \<open>How often the log shows an entry into the breaker of a provider, and a call of a provider.\<close>

definition execute_calls :: "string \<Rightarrow> world \<Rightarrow> nat" where
  "execute_calls nm w = count_list (trace w) (ExecuteCall nm)"

definition provider_calls :: "string \<Rightarrow> world \<Rightarrow> nat" where
  "provider_calls nm w = count_list (trace w) (ProviderSend nm)"

text \<open>
  The least backoff after a failed attempt: \<open>calculateDelay\<close> without its jitter, which
  is never negative.
\<close>

definition backoff_floor :: "EmailService \<Rightarrow> nat \<Rightarrow> int" where
  "backoff_floor s attempt = min (baseDelay s * 2 ^ (attempt - 1)) (maxDelay s)"

text \<open>
  The queue's ordering invariant between an item and a later one: strictly higher
  priority first, and within one priority the earlier creation time first.
\<close>

definition item_before :: "queue_item \<Rightarrow> queue_item \<Rightarrow> bool" where
  "item_before a b =
     (item_priority a > item_priority b
      \<or> (item_priority a = item_priority b \<and> createdAt a \<le> createdAt b))"


subsection \<open>Concrete inputs\<close>

text \<open>
  \<open>Date.prototype.toISOString\<close> for the years 0000 to 9999, by the usual
  days-to-civil-date arithmetic.
\<close>

definition digits :: "nat \<Rightarrow> int \<Rightarrow> string" where
  "digits n v = map (\<lambda>k. ''0123456789'' ! nat ((v div 10 ^ k) mod 10)) (rev [0..<n])"

definition iso_string :: "int \<Rightarrow> string" where
  "iso_string t =
     (let days = t div 86400000; ms = t mod 86400000;
          z = days + 719468; era = z div 146097; doe = z mod 146097;
          yoe = (doe - doe div 1460 + doe div 36524 - doe div 146096) div 365;
          doy = doe - (365 * yoe + yoe div 4 - yoe div 100);
          mp = (5 * doy + 2) div 153;
          d = doy - (153 * mp + 2) div 5 + 1;
          m = (if mp < 10 then mp + 3 else mp - 9);
          y = yoe + era * 400 + (if m \<le> 2 then 1 else 0)
      in digits 4 y @ ''-'' @ digits 2 m @ ''-'' @ digits 2 d @ ''T'' @
         digits 2 (ms div 3600000) @ '':'' @ digits 2 (ms div 60000 mod 60) @ '':'' @
         digits 2 (ms div 1000 mod 60) @ ''.'' @ digits 3 (ms mod 1000) @ ''Z'')"

text \<open>
  A world for running the program on concrete inputs: the clock starts at
  2023-11-14T22:13:20.000Z, every random draw is one half, the UUIDs are numbered,
  timers fire on time. The digest is a stand-in; the concrete requests below carry an
  explicit idempotency key, so it is never called.
\<close>

definition demo_world :: world where
  "demo_world =
     \<lparr>clock = 1700000000000, random_src = (\<lambda>n. 1 / 2), random_pos = 0,
      uuid_src = (\<lambda>n. ''3f2504e0-4f89-41d3-9a0c-0305e82c33'' @ digits 2 (int n)), uuid_pos = 0,
      lag_src = (\<lambda>n. 0), timers = 0,
      sha256hex = (\<lambda>content. content), toISOString = iso_string, trace = []\<rparr>"

definition demo_email :: email where
  "demo_email = \<lparr>to = ''test@example.com'', subject = ''Test Subject'', body = ''Test Body'',
                  sender = Some ''sender@example.com''\<rparr>"

definition demo_options :: send_options where
  "demo_options = \<lparr>idempotencyKey = Some ''custom-key'', priority = None, maxAttempts = None\<rparr>"

text \<open>\<open>new EmailService({providers: configs})\<close>, everything else by default.\<close>

definition demo_service :: "provider_config list \<Rightarrow> EmailService" where
  "demo_service configs =
     new_EmailService
       \<lparr>opt_maxRetries = None, opt_baseDelay = None, opt_maxDelay = None,
        opt_providers = Some configs, opt_rateLimit = None, opt_rateLimitWindow = None,
        opt_circuitBreakerThreshold = None, opt_circuitBreakerTimeout = None,
        opt_idempotencyTtl = None\<rparr> 1700000000000"

text \<open>\<open>{name: 'TestProvider', failureRate: 0, latency: 10}\<close>, as the repository's tests configure it.\<close>

definition test_provider :: provider_config where
  "test_provider = \<lparr>cfg_name = ''TestProvider'', cfg_failureRate = Some 0,
                     cfg_latency = Some 10, cfg_isHealthy = None\<rparr>"

text \<open>\<open>{name: 'Provider-A', latency: 10, isHealthy: false}\<close>: a provider that is down.\<close>

definition down_provider :: provider_config where
  "down_provider = \<lparr>cfg_name = ''Provider-A'', cfg_failureRate = None,
                     cfg_latency = Some 10, cfg_isHealthy = Some False\<rparr>"

text \<open>
  A provider that is down, and a provider whose failure rate was set to 0 with
  \<open>setFailureRate\<close> (the constructor turns a configured rate of 0 into the default 0.1).
\<close>

definition alwaysFails :: MockEmailProvider where
  "alwaysFails = new_MockEmailProvider down_provider"

definition alwaysSucceeds :: MockEmailProvider where
  "alwaysSucceeds = setFailureRate 0 (new_MockEmailProvider test_provider)"

definition fallback_service :: EmailService where
  "fallback_service =
     (demo_service [down_provider, test_provider])\<lparr>providers := [alwaysFails, alwaysSucceeds]\<rparr>"

text \<open>A service that holds an idempotency record for the key of the concrete request.\<close>

definition demo_record :: "(string \<times> jsval) list" where
  "demo_record =
     [(''success'', JBool True),
      (''messageId'', JStr ''TestProvider-3f2504e0-4f89-41d3-9a0c-0305e82c3300''),
      (''provider'', JStr ''TestProvider''),
      (''timestamp'', JNum 1700000000000)]"

definition demo_cached_service :: EmailService where
  "demo_cached_service =
     (demo_service [test_provider])\<lparr>sentEmails := [''custom-key'' \<mapsto> demo_record]\<rparr>"

text \<open>\<open>new EmailQueue({emailService})\<close> over a service whose only provider is down.\<close>

definition demo_queue :: EmailQueue where
  "demo_queue = new_EmailQueue (demo_service [down_provider]) None None None"







text \<open>An operation that always rejects, as the breaker's tests use it.\<close>

definition failing_operation :: "world \<Rightarrow> (error + jsval) \<times> world" where
  "failing_operation w = (Inl (ProviderError ''failure''), w)"

definition succeeding_operation :: "world \<Rightarrow> (error + jsval) \<times> world" where
  "succeeding_operation w = (Inr (JStr ''success''), w)"

section \<open>Properties\<close>

declare sendWithRetry_from.simps [simp del]
declare try_providers.simps [simp del]

lemmas world_defs = delay_def emit_def Math_random_def randomUUID_def

text \<open>The definitions a run of the service on a concrete input unfolds.\<close>

lemmas eval_defs =
  sendEmail_def validateEmail_def emailRegex_def atom_char_def is_space_def fingerprint_def
  isDuplicate_def expired_def isAllowed_def refillTokens_def recentRequests_def
  ident_or_default_def str_or_def or_default_def sentEmails_get_def trackSentEmail_def
  store_breaker_def try_providers.simps sendWithRetry_def sendWithRetry_from.simps
  guarded_send_def execute_def enter_def onFailure_def onSuccess_def provider_sendEmail_def
  provider_failed_def calculateDelay_def world_defs Let_def
  demo_world_def demo_email_def demo_options_def demo_service_def test_provider_def
  down_provider_def new_EmailService_def new_RateLimiter_def new_CircuitBreaker_def
  new_MockEmailProvider_def initializeProviders_def execute_calls_def provider_calls_def

lemmas queue_defs =
  processQueue_def itemsToProcess_def processQueueItem_def cleanupQueue_def addEmail_def
  generateId_def sortQueue_def array_sort_def compare_items_def calculateRetryDelay_def
  new_EmailQueue_def demo_queue_def

subsection \<open>Provider calls, attempts and the provider loop\<close>

lemma random_unit_cong: "random_src w' = random_src w \<Longrightarrow> random_unit w' = random_unit w"
  by (simp add: random_unit_def)

lemma provider_sendEmail_world:
  assumes "provider_sendEmail p e w = (res, w')"
  shows "random_src w' = random_src w \<and> uuid_src w' = uuid_src w \<and> uuid_pos w \<le> uuid_pos w'
         \<and> trace w' = trace w @ [ProviderSend (name p)]"
  using assms
  by (auto simp: provider_sendEmail_def Let_def world_defs split: if_splits)

lemma provider_sendEmail_fails:
  assumes "always_fails p" and "random_unit w"
  shows "\<exists>w'. provider_sendEmail p e w = (Inl (provider_failed p), w')"
proof (cases "isHealthy p")
  case False
  then show ?thesis by (simp add: provider_sendEmail_def Let_def world_defs)
next
  case True
  with assms(1) have "1 \<le> failureRate p" by (simp add: always_fails_def)
  moreover have "random_src w (random_pos w) < 1"
    using assms(2) by (simp add: random_unit_def)
  ultimately have "random_src w (random_pos w) < failureRate p" by linarith
  with True show ?thesis
    by (simp add: provider_sendEmail_def Let_def world_defs)
qed

lemma provider_sendEmail_succeeds:
  assumes "always_succeeds p" and "random_unit w"
  shows "\<exists>r w'. provider_sendEmail p e w = (Inr r, w') \<and> get_prop r ''provider'' = JStr (name p)
           \<and> get_prop r ''success'' = JBool True"
proof -
  have "0 \<le> random_src w (random_pos w)" using assms(2) by (simp add: random_unit_def)
  moreover have "failureRate p \<le> 0" "isHealthy p" using assms(1) by (simp_all add: always_succeeds_def)
  ultimately have "\<not> random_src w (random_pos w) < failureRate p" by linarith
  with \<open>isHealthy p\<close> show ?thesis
    by (simp add: provider_sendEmail_def Let_def world_defs)
qed



lemma guarded_send_world:
  assumes "guarded_send e p cbo w = (res, cbo', w')"
  shows "random_src w' = random_src w \<and> uuid_src w' = uuid_src w \<and> uuid_pos w \<le> uuid_pos w'
         \<and> (cbo' = None \<longleftrightarrow> cbo = None)"
proof (cases cbo)
  case None
  with assms show ?thesis by (simp add: guarded_send_def)
next
  case (Some cb)
  obtain r w1 where op: "provider_sendEmail p e (emit (ExecuteCall (name p)) w) = (r, w1)"
    by (cases "provider_sendEmail p e (emit (ExecuteCall (name p)) w)") auto
  from provider_sendEmail_world [OF op] assms Some op show ?thesis
    by (auto simp: guarded_send_def execute_def emit_def split: option.splits sum.splits)
qed

lemma guarded_send_counts:
  assumes "guarded_send e p (Some cb) w = (res, cbo', w')"
  shows "execute_calls nm w' = execute_calls nm w + (if nm = name p then 1 else 0)
         \<and> provider_calls nm w' \<le> provider_calls nm w + (if nm = name p then 1 else 0)"
proof -
  obtain r w1 where op: "provider_sendEmail p e (emit (ExecuteCall (name p)) w) = (r, w1)"
    by (cases "provider_sendEmail p e (emit (ExecuteCall (name p)) w)") auto
  from provider_sendEmail_world [OF op] assms op show ?thesis
    by (auto simp: guarded_send_def execute_def emit_def execute_calls_def provider_calls_def
        split: option.splits sum.splits)
qed

lemma guarded_send_fails:
  assumes "always_fails p" and "random_unit w"
  shows "\<exists>err cbo' w'. guarded_send e p cbo w = (Inl err, cbo', w')
           \<and> (cbo \<noteq> None \<longrightarrow> err = provider_failed p \<or> err = BreakerOpenError)"
proof (cases cbo)
  case None
  then show ?thesis by (simp add: guarded_send_def)
next
  case (Some cb)
  have "random_unit (emit (ExecuteCall (name p)) w)"
    using assms(2) by (simp add: random_unit_def emit_def)
  from provider_sendEmail_fails [OF assms(1) this]
  obtain w1 where "provider_sendEmail p e (emit (ExecuteCall (name p)) w) = (Inl (provider_failed p), w1)"
    by blast
  with Some show ?thesis
    by (auto simp: guarded_send_def execute_def split: option.splits)
qed

lemma guarded_send_closed_succeeds:
  assumes "always_succeeds p" and "random_unit w" and "state cb = CLOSED"
  shows "\<exists>r cb' w'. guarded_send e p (Some cb) w = (Inr r, Some cb', w')
           \<and> get_prop r ''provider'' = JStr (name p) \<and> get_prop r ''success'' = JBool True"
proof -
  have "random_unit (emit (ExecuteCall (name p)) w)"
    using assms(2) by (simp add: random_unit_def emit_def)
  from provider_sendEmail_succeeds [OF assms(1) this]
  obtain r w1 where "provider_sendEmail p e (emit (ExecuteCall (name p)) w) = (Inr r, w1)"
    "get_prop r ''provider'' = JStr (name p)" "get_prop r ''success'' = JBool True"
    by blast
  with assms(3) show ?thesis
    by (simp add: guarded_send_def execute_def enter_def)
qed



lemma sendWithRetry_from_run [consumes 1, case_names finished ok last retry]:
  assumes run: "sendWithRetry_from attempt s e p cb w = (res, cb', w')"
    and fin: "\<And>attempt cb w. \<not> attempt \<le> maxRetries s \<Longrightarrow> P attempt cb w (Inr JUndefined) cb w"
    and ok: "\<And>attempt cb w r cb1 w1.
        attempt \<le> maxRetries s \<Longrightarrow> guarded_send e p cb w = (Inr r, cb1, w1)
        \<Longrightarrow> P attempt cb w (Inr r) cb1 w1"
    and last: "\<And>attempt cb w err cb1 w1.
        attempt = maxRetries s \<Longrightarrow> guarded_send e p cb w = (Inl err, cb1, w1)
        \<Longrightarrow> P attempt cb w (Inl err) cb1 w1"
    and retry: "\<And>attempt cb w err cb1 w1 d w2 res cb' w'.
        attempt < maxRetries s \<Longrightarrow> guarded_send e p cb w = (Inl err, cb1, w1)
        \<Longrightarrow> calculateDelay attempt s w1 = (d, w2)
        \<Longrightarrow> sendWithRetry_from (Suc attempt) s e p cb1 (delay d w2) = (res, cb', w')
        \<Longrightarrow> P (Suc attempt) cb1 (delay d w2) res cb' w'
        \<Longrightarrow> P attempt cb w res cb' w'"
  shows "P attempt cb w res cb' w'"
  using run
proof (induction "Suc (maxRetries s) - attempt" arbitrary: attempt cb w)
  case 0
  then have over: "\<not> attempt \<le> maxRetries s" by simp
  with "0.prems" have "res = Inr JUndefined" "cb' = cb" "w' = w"
    by (simp_all add: sendWithRetry_from.simps [of attempt])
  with over fin show ?case by simp
next
  case (Suc k)
  then have le: "attempt \<le> maxRetries s" by simp
  note run = Suc.prems
  obtain r1 cb1 w1 where g: "guarded_send e p cb w = (r1, cb1, w1)"
    by (cases "guarded_send e p cb w") auto
  show ?case
  proof (cases r1)
    case (Inr r)
    with le g run have "res = Inr r" "cb' = cb1" "w' = w1"
      by (simp_all add: sendWithRetry_from.simps [of attempt])
    with le g Inr ok show ?thesis by simp
  next
    case (Inl err)
    show ?thesis
    proof (cases "attempt = maxRetries s")
      case True
      with g Inl run have "res = Inl err" "cb' = cb1" "w' = w1"
        by (simp_all add: sendWithRetry_from.simps [of "maxRetries s"])
      with True g Inl last show ?thesis by simp
    next
      case False
      obtain d w2 where c: "calculateDelay attempt s w1 = (d, w2)"
        by (cases "calculateDelay attempt s w1") auto
      from le False g Inl c run
      have rec: "sendWithRetry_from (Suc attempt) s e p cb1 (delay d w2) = (res, cb', w')"
        by (simp add: sendWithRetry_from.simps [of attempt])
      from Suc.hyps(2) have "k = Suc (maxRetries s) - Suc attempt" by simp
      from Suc.hyps(1) [OF this rec]
      have "P (Suc attempt) cb1 (delay d w2) res cb' w'" .
      moreover from le False have "attempt < maxRetries s" by simp
      ultimately show ?thesis using retry g Inl c rec by blast
    qed
  qed
qed

lemma calculateDelay_world:
  assumes "calculateDelay attempt s w = (d, w2)"
  shows "w2 = w\<lparr>random_pos := Suc (random_pos w)\<rparr>"
  using assms by (auto simp: calculateDelay_def Let_def Math_random_def split: prod.splits)

lemma sendWithRetry_from_world:
  assumes "sendWithRetry_from attempt s e p cb w = (res, cb', w')"
  shows "random_src w' = random_src w \<and> uuid_src w' = uuid_src w \<and> uuid_pos w \<le> uuid_pos w'
         \<and> (cb' = None \<longleftrightarrow> cb = None)"
  using assms
proof (induction rule: sendWithRetry_from_run)
  case (finished attempt cb w)
  show ?case by simp
next
  case (ok attempt cb w r cb1 w1)
  from guarded_send_world [OF ok(2)] show ?case .
next
  case (last attempt cb w err cb1 w1)
  from guarded_send_world [OF last(2)] show ?case .
next
  case (retry attempt cb w err cb1 w1 d w2 res cb' w')
  from guarded_send_world [OF retry(2)] calculateDelay_world [OF retry(3)] retry(5)
  show ?case by (simp add: delay_def)
qed


lemma sendWithRetry_from_last_attempt:
  assumes "sendWithRetry_from attempt s e p cb w = (res, cb', w')" and "attempt \<le> maxRetries s"
  shows "\<exists>cb0 w0. guarded_send e p cb0 w0 = (res, cb', w') \<and> uuid_src w0 = uuid_src w
           \<and> uuid_pos w \<le> uuid_pos w0 \<and> (cb0 = None \<longleftrightarrow> cb = None)"
  using assms
proof (induction rule: sendWithRetry_from_run)
  case (finished attempt cb w)
  then show ?case by simp
next
  case (ok attempt cb w r cb1 w1)
  then show ?case by blast
next
  case (last attempt cb w err cb1 w1)
  then show ?case by blast
next
  case (retry attempt cb w err cb1 w1 d w2 res cb' w')
  from retry(1) have "Suc attempt \<le> maxRetries s" by simp
  from retry(5) [OF this] obtain cb0 w0 where
    "guarded_send e p cb0 w0 = (res, cb', w')" "uuid_src w0 = uuid_src (delay d w2)"
    "uuid_pos (delay d w2) \<le> uuid_pos w0" "cb0 = None \<longleftrightarrow> cb1 = None"
    by blast
  with guarded_send_world [OF retry(2)] calculateDelay_world [OF retry(3)]
  show ?case by (intro exI [of _ cb0] exI [of _ w0]) (auto simp: delay_def)
qed

lemma sendWithRetry_from_counts:
  assumes "sendWithRetry_from attempt s e p cb w = (res, cb', w')"
    and "attempt \<le> maxRetries s" and "cb \<noteq> None"
  shows "\<exists>k. 1 \<le> k \<and> k \<le> Suc (maxRetries s) - attempt
           \<and> (\<forall>nm. execute_calls nm w' = execute_calls nm w + (if nm = name p then k else 0))
           \<and> (\<forall>nm. provider_calls nm w' \<le> provider_calls nm w + (if nm = name p then k else 0))
           \<and> (isl res \<longrightarrow> k = Suc (maxRetries s) - attempt)"
  using assms
proof (induction rule: sendWithRetry_from_run)
  case (finished attempt cb w)
  then show ?case by simp
next
  case (ok attempt cb w r cb1 w1)
  from ok(4) obtain c where "cb = Some c" by auto
  with ok(2) have g: "guarded_send e p (Some c) w = (Inr r, cb1, w1)" by simp
  show ?case using guarded_send_counts [OF g] ok(1) by (intro exI [of _ 1]) auto
next
  case (last attempt cb w err cb1 w1)
  from last(4) obtain c where "cb = Some c" by auto
  with last(2) have g: "guarded_send e p (Some c) w = (Inl err, cb1, w1)" by simp
  show ?case using guarded_send_counts [OF g] last(1) by (intro exI [of _ 1]) auto
next
  case (retry attempt cb w err cb1 w1 d w2 res cb' w')
  from retry(7) obtain c where "cb = Some c" by auto
  with retry(2) have g: "guarded_send e p (Some c) w = (Inl err, cb1, w1)" by simp
  from guarded_send_world [OF retry(2)] retry(7) have "cb1 \<noteq> None" by simp
  moreover from retry(1) have "Suc attempt \<le> maxRetries s" by simp
  ultimately obtain k where k: "1 \<le> k" "k \<le> Suc (maxRetries s) - Suc attempt"
    "\<forall>nm. execute_calls nm w' = execute_calls nm (delay d w2) + (if nm = name p then k else 0)"
    "\<forall>nm. provider_calls nm w' \<le> provider_calls nm (delay d w2) + (if nm = name p then k else 0)"
    "isl res \<longrightarrow> k = Suc (maxRetries s) - Suc attempt"
    using retry(5) by blast
  have same: "trace (delay d w2) = trace w1"
    using calculateDelay_world [OF retry(3)] by (simp add: delay_def)
  then have e1: "\<And>nm. execute_calls nm (delay d w2) = execute_calls nm w1"
    and p1: "\<And>nm. provider_calls nm (delay d w2) = provider_calls nm w1"
    by (simp_all add: execute_calls_def provider_calls_def)
  have "\<forall>nm. execute_calls nm w' = execute_calls nm w + (if nm = name p then Suc k else 0)"
    using k(3) e1 guarded_send_counts [OF g] by auto
  moreover have "\<forall>nm. provider_calls nm w' \<le> provider_calls nm w + (if nm = name p then Suc k else 0)"
  proof
    fix nm
    from k(4) p1 have "provider_calls nm w' \<le> provider_calls nm w1 + (if nm = name p then k else 0)"
      by simp
    moreover from guarded_send_counts [OF g, of nm]
    have "provider_calls nm w1 \<le> provider_calls nm w + (if nm = name p then 1 else 0)" by simp
    ultimately show "provider_calls nm w' \<le> provider_calls nm w + (if nm = name p then Suc k else 0)"
      by (simp split: if_splits)
  qed
  ultimately show ?case using k(1,2,5) retry(1) by (intro exI [of _ "Suc k"]) auto
qed

lemma sendWithRetry_from_fails:
  assumes "sendWithRetry_from attempt s e p cb w = (res, cb', w')"
    and "attempt \<le> maxRetries s" and "always_fails p" and "random_unit w"
  shows "\<exists>err. res = Inl err \<and> (cb \<noteq> None \<longrightarrow> err = provider_failed p \<or> err = BreakerOpenError)"
  using assms
proof (induction rule: sendWithRetry_from_run)
  case (finished attempt cb w)
  then show ?case by simp
next
  case (ok attempt cb w r cb1 w1)
  with guarded_send_fails [OF ok(4) ok(5), of e cb] show ?case by auto
next
  case (last attempt cb w err cb1 w1)
  with guarded_send_fails [OF last(4) last(5), of e cb] show ?case by auto
next
  case (retry attempt cb w err cb1 w1 d w2 res cb' w')
  have "random_unit (delay d w2)"
    using retry(8) guarded_send_world [OF retry(2)] calculateDelay_world [OF retry(3)]
    by (simp add: random_unit_def delay_def)
  moreover from retry(1) have "Suc attempt \<le> maxRetries s" by simp
  moreover from guarded_send_world [OF retry(2)] have "cb1 \<noteq> None \<longleftrightarrow> cb \<noteq> None" by simp
  ultimately show ?case using retry(5) retry(7) by auto
qed





lemma sendWithRetry_world:
  assumes "sendWithRetry s e p cb w = (res, cb', w')"
  shows "random_src w' = random_src w \<and> uuid_src w' = uuid_src w \<and> uuid_pos w \<le> uuid_pos w'
         \<and> (cb' = None \<longleftrightarrow> cb = None)"
  using assms sendWithRetry_from_world by (simp add: sendWithRetry_def)

lemma store_breaker_fields [simp]:
  "providers (store_breaker a cb s) = providers s"
  "maxRetries (store_breaker a cb s) = maxRetries s"
  "currentProviderIndex (store_breaker a cb s) = currentProviderIndex s"
  "sentEmails (store_breaker a cb s) = sentEmails s"
  "idempotencyTtl (store_breaker a cb s) = idempotencyTtl s"
  "rateLimiter (store_breaker a cb s) = rateLimiter s"
  by (simp_all add: store_breaker_def split: option.splits)









lemma isDuplicate_fields:
  assumes "isDuplicate key now s = (dup, s1)"
  shows "providers s1 = providers s \<and> maxRetries s1 = maxRetries s
         \<and> currentProviderIndex s1 = currentProviderIndex s
         \<and> circuitBreakers s1 = circuitBreakers s \<and> rateLimiter s1 = rateLimiter s
         \<and> idempotencyTtl s1 = idempotencyTtl s"
  using assms by (auto simp: isDuplicate_def split: option.splits if_splits)

lemma sendEmail_fresh:
  assumes "validateEmail e = None"
    and "\<not> fst (isDuplicate (fingerprint e options w) (clock w) s)"
    and "fst (isAllowed (Some (str_or (sender e) ''default'')) (clock w) (rateLimiter s))"
  shows "\<exists>s2. sendEmail e options s w = try_providers 0 None e (fingerprint e options w) s2 w
           \<and> providers s2 = providers s \<and> maxRetries s2 = maxRetries s
           \<and> currentProviderIndex s2 = currentProviderIndex s
           \<and> circuitBreakers s2 = circuitBreakers s
           \<and> idempotencyTtl s2 = idempotencyTtl s"
proof -
  obtain dup s1 where d: "isDuplicate (fingerprint e options w) (clock w) s = (dup, s1)"
    by (cases "isDuplicate (fingerprint e options w) (clock w) s") auto
  with assms(2) have dup: "dup = False" by simp
  note f = isDuplicate_fields [OF d]
  obtain ok rl where a: "isAllowed (Some (str_or (sender e) ''default'')) (clock w) (rateLimiter s1) = (ok, rl)"
    by (cases "isAllowed (Some (str_or (sender e) ''default'')) (clock w) (rateLimiter s1)") auto
  with assms(3) f have ok: "ok = True" by simp
  have "sendEmail e options s w
        = try_providers 0 None e (fingerprint e options w) (s1\<lparr>rateLimiter := rl\<rparr>) w"
    using assms(1) d dup a ok by (simp add: sendEmail_def Let_def)
  with f show ?thesis by (intro exI [of _ "s1\<lparr>rateLimiter := rl\<rparr>"]) simp
qed

lemma try_providers_step_failure:
  assumes "i < length (providers s)"
    and "sendWithRetry s e (providers s ! ((currentProviderIndex s + i) mod length (providers s)))
           (circuitBreakers s ((currentProviderIndex s + i) mod length (providers s))) w
         = (Inl err, cb1, w1)"
  shows "try_providers i lastError e key s w
         = try_providers (Suc i) (Some err) e key
             (store_breaker ((currentProviderIndex s + i) mod length (providers s)) cb1 s) w1"
  using assms by (simp add: try_providers.simps [of i] Let_def)

lemma try_providers_step_success:
  assumes "i < length (providers s)"
    and "sendWithRetry s e (providers s ! ((currentProviderIndex s + i) mod length (providers s)))
           (circuitBreakers s ((currentProviderIndex s + i) mod length (providers s))) w
         = (Inr r, cb1, w1)"
    and "r \<noteq> JUndefined"
  shows "\<exists>s'. try_providers i lastError e key s w = (Inr r, s', w1)"
  using assms by (simp add: try_providers.simps [of i] Let_def)

lemma sendWithRetry_succeeds:
  assumes "always_succeeds p" and "random_unit w" and "state cb = CLOSED" and "1 \<le> maxRetries s"
  shows "\<exists>r cb' w'. sendWithRetry s e p (Some cb) w = (Inr r, cb', w') \<and> r \<noteq> JUndefined
           \<and> get_prop r ''provider'' = JStr (name p) \<and> get_prop r ''success'' = JBool True"
proof -
  from guarded_send_closed_succeeds [OF assms(1) assms(2) assms(3), of e]
  obtain r cb' w' where g: "guarded_send e p (Some cb) w = (Inr r, Some cb', w')"
    and r: "get_prop r ''provider'' = JStr (name p)" "get_prop r ''success'' = JBool True"
    by blast
  from g assms(4) have "sendWithRetry s e p (Some cb) w = (Inr r, Some cb', w')"
    by (simp add: sendWithRetry_def sendWithRetry_from.simps [of "Suc 0"])
  moreover from r(1) have "r \<noteq> JUndefined" by auto
  ultimately show ?thesis using r by blast
qed


lemma delay_clock: "clock w \<le> clock (delay d w)"
  by (simp add: delay_def)

lemma delay_clock_lower: "clock w + \<lceil>d\<rceil> \<le> clock (delay d w)"
  by (simp add: delay_def)

lemma provider_sendEmail_clock:
  assumes "provider_sendEmail p e w = (res, w')"
  shows "clock w \<le> clock w'"
  using assms
  by (auto simp: provider_sendEmail_def Let_def world_defs split: if_splits)

lemma guarded_send_clock:
  assumes "guarded_send e p cb w = (res, cb', w')"
  shows "clock w \<le> clock w'"
proof (cases cb)
  case None
  with assms show ?thesis by (simp add: guarded_send_def)
next
  case (Some c)
  obtain r w1 where op: "provider_sendEmail p e (emit (ExecuteCall (name p)) w) = (r, w1)"
    by (cases "provider_sendEmail p e (emit (ExecuteCall (name p)) w)") auto
  from provider_sendEmail_clock [OF op] assms Some op show ?thesis
    by (auto simp: guarded_send_def execute_def emit_def split: option.splits sum.splits)
qed

lemma calculateDelay_lower:
  assumes "calculateDelay attempt s w = (d, w2)" and "random_unit w" and "0 \<le> baseDelay s"
  shows "backoff_floor s attempt \<le> \<lceil>d\<rceil>"
proof -
  let ?E = "of_int (baseDelay s) * 2 ^ (attempt - 1) :: rat"
  let ?r = "random_src w (random_pos w)"
  from assms(1) have d: "d = min (?E + ?r * (1 / 10) * ?E) (of_int (maxDelay s))"
    by (auto simp: calculateDelay_def Let_def Math_random_def)
  have "0 \<le> ?r" using assms(2) by (simp add: random_unit_def)
  moreover have "0 \<le> ?E" using assms(3) by simp
  ultimately have "0 \<le> ?r * (1 / 10) * ?E" by simp
  then have "min ?E (of_int (maxDelay s)) \<le> d" unfolding d by (simp add: min_def)
  moreover have "min ?E (of_int (maxDelay s)) = of_int (backoff_floor s attempt)"
    by (simp add: backoff_floor_def of_int_min)
  ultimately have "of_int (backoff_floor s attempt) \<le> d" by simp
  then show ?thesis unfolding le_ceiling_iff by linarith
qed


lemma sendWithRetry_from_backoff:
  assumes "sendWithRetry_from attempt s e p cb w = (res, cb', w')"
    and "isl res" and "attempt \<le> maxRetries s" and "random_unit w" and "0 \<le> baseDelay s"
  shows "clock w + sum (backoff_floor s) {attempt..<maxRetries s} \<le> clock w'"
  using assms
proof (induction rule: sendWithRetry_from_run)
  case (finished attempt cb w)
  then show ?case by simp
next
  case (ok attempt cb w r cb1 w1)
  then show ?case by simp
next
  case (last attempt cb w err cb1 w1)
  with guarded_send_clock [OF last(2)] show ?case by simp
next
  case (retry attempt cb w err cb1 w1 d w2 res cb' w')
  have ru1: "random_unit w1"
    using retry(8) guarded_send_world [OF retry(2)] by (simp add: random_unit_def)
  have ru2: "random_unit (delay d w2)"
    using ru1 calculateDelay_world [OF retry(3)] by (simp add: random_unit_def delay_def)
  from retry(1) have le: "Suc attempt \<le> maxRetries s" by simp
  from retry(5) [OF retry(6) le ru2 retry(9)]
  have ih: "clock (delay d w2) + sum (backoff_floor s) {Suc attempt..<maxRetries s} \<le> clock w'" .
  have "clock w2 = clock w1" using calculateDelay_world [OF retry(3)] by simp
  with delay_clock_lower [of w2 d] calculateDelay_lower [OF retry(3) ru1 retry(9)]
  have "clock w1 + backoff_floor s attempt \<le> clock (delay d w2)" by simp
  moreover from guarded_send_clock [OF retry(2)] have "clock w \<le> clock w1" .
  moreover from retry(1) have "sum (backoff_floor s) {attempt..<maxRetries s}
      = backoff_floor s attempt + sum (backoff_floor s) {Suc attempt..<maxRetries s}"
    by (simp add: sum.atLeast_Suc_lessThan)
  ultimately show ?case using ih by linarith
qed

subsection \<open>Rate limiting\<close>

text \<open>
  Claim C5. A rate limiter made with limit 2 and window \<open>W\<close> answers three calls for one
  identifier that all fall within \<open>W\<close> (the third less than \<open>W\<close> after the first) with
  true, true, false; a further call more than \<open>W\<close> after the third is admitted.
\<close>

theorem C5_rate_limit_window:
  assumes "0 < W" and "t1 \<le> t2" and "t2 \<le> t3" and "t3 - t1 < W" and "W < t4 - t3"
  shows "(let rl0 = new_RateLimiter (Some 2) (Some W) t0;
              (a1, rl1) = isAllowed identifier t1 rl0;
              (a2, rl2) = isAllowed identifier t2 rl1;
              (a3, rl3) = isAllowed identifier t3 rl2;
              (a4, rl4) = isAllowed identifier t4 rl3
          in [a1, a2, a3] = [True, True, False] \<and> a4 = True)"
  using assms
  by (simp add: new_RateLimiter_def isAllowed_def refillTokens_def recentRequests_def
      or_default_def Let_def)

theorem C5_rate_limit_window_witness:
  "(0::int) < 60000 \<and> (1000::int) \<le> 1010 \<and> (1010::int) \<le> 1020 \<and> (1020::int) - 1000 < 60000
   \<and> (60000::int) < 70000 - 1020
   \<and> (let rl0 = new_RateLimiter (Some 2) (Some 60000) 0;
           (a1, rl1) = isAllowed (Some ''test'') 1000 rl0;
           (a2, rl2) = isAllowed (Some ''test'') 1010 rl1;
           (a3, rl3) = isAllowed (Some ''test'') 1020 rl2;
           (a4, rl4) = isAllowed (Some ''test'') 70000 rl3
       in [a1, a2, a3] = [True, True, False] \<and> a4 = True)"
proof -
  have h: "(0::int) < 60000" "(1000::int) \<le> 1010" "(1010::int) \<le> 1020"
    "(1020::int) - 1000 < 60000" "(60000::int) < 70000 - 1020"
    by simp_all
  from C5_rate_limit_window [of 60000 1000 1010 1020 70000 0 "Some ''test''", OF h] h show ?thesis
    by (intro conjI)
qed

text \<open>
  The window is open at its old end: a call exactly \<open>W\<close> after the first admission no
  longer counts that admission.
\<close>

lemma rate_limit_window_boundary:
  assumes "0 < W" and "t1 \<le> t2" and "t2 \<le> t1 + W"
  shows "(let rl0 = new_RateLimiter (Some 2) (Some W) t0;
              (a1, rl1) = isAllowed identifier t1 rl0;
              (a2, rl2) = isAllowed identifier t2 rl1;
              (a3, rl3) = isAllowed identifier (t1 + W) rl2
          in [a1, a2, a3] = [True, True, True])"
  using assms
  by (simp add: new_RateLimiter_def isAllowed_def refillTokens_def recentRequests_def
      or_default_def Let_def)

subsection \<open>Circuit breaker\<close>

text \<open>
  Claim C6. On a new breaker with threshold 2, two failed operations in a row leave the
  breaker OPEN (after the first it is still CLOSED), with the deadline one reset timeout
  after the second failure. Before the deadline every call fails with the breaker-open
  error, the operation is not run and nothing changes. At or after the deadline the call
  is let in as the HALF_OPEN probe, and if the operation succeeds the breaker is CLOSED
  with a failure count of 0.
\<close>

theorem C6_circuit_breaker:
  assumes "op1 wa = (Inl e1, wa')" and "op2 wb = (Inl e2, wb')"
  shows "(let cb0 = new_CircuitBreaker 2 T;
              (r1, cb1, w1) = execute op1 cb0 wa;
              (r2, cb2, w2) = execute op2 cb1 wb
          in state cb0 = CLOSED
             \<and> state cb1 = CLOSED \<and> failureCount cb1 = 1
             \<and> state cb2 = OPEN \<and> failureCount cb2 = 2
             \<and> nextAttemptTime cb2 = Some (clock wb' + T)
             \<and> (\<forall>operation w. clock w < clock wb' + T
                    \<longrightarrow> execute operation cb2 w = (Inl BreakerOpenError, cb2, w))
             \<and> (\<forall>operation w r w'. clock wb' + T \<le> clock w \<and> operation w = (Inr r, w')
                    \<longrightarrow> enter (clock w) cb2 = Some (cb2\<lparr>state := HALF_OPEN\<rparr>)
                        \<and> (\<exists>cb3. execute operation cb2 w = (Inr r, cb3, w')
                              \<and> state cb3 = CLOSED \<and> failureCount cb3 = 0)))"
  using assms
  by (simp add: new_CircuitBreaker_def execute_def enter_def onFailure_def onSuccess_def Let_def)

theorem C6_circuit_breaker_witness:
  "failing_operation demo_world = (Inl (ProviderError ''failure''), demo_world)
   \<and> failing_operation demo_world = (Inl (ProviderError ''failure''), demo_world)
   \<and> (let cb0 = new_CircuitBreaker 2 100;
           (r1, cb1, w1) = execute failing_operation cb0 demo_world;
           (r2, cb2, w2) = execute failing_operation cb1 demo_world
       in state cb0 = CLOSED
          \<and> state cb1 = CLOSED \<and> failureCount cb1 = 1
          \<and> state cb2 = OPEN \<and> failureCount cb2 = 2
          \<and> nextAttemptTime cb2 = Some (clock demo_world + 100)
          \<and> (\<forall>operation w. clock w < clock demo_world + 100
                 \<longrightarrow> execute operation cb2 w = (Inl BreakerOpenError, cb2, w))
          \<and> (\<forall>operation w r w'. clock demo_world + 100 \<le> clock w \<and> operation w = (Inr r, w')
                 \<longrightarrow> enter (clock w) cb2 = Some (cb2\<lparr>state := HALF_OPEN\<rparr>)
                     \<and> (\<exists>cb3. execute operation cb2 w = (Inr r, cb3, w')
                           \<and> state cb3 = CLOSED \<and> failureCount cb3 = 0)))"
proof -
  have h: "failing_operation demo_world = (Inl (ProviderError ''failure''), demo_world)"
    by (simp add: failing_operation_def)
  from C6_circuit_breaker [of failing_operation demo_world "ProviderError ''failure''" demo_world
      failing_operation demo_world "ProviderError ''failure''" demo_world 100, OF h h] h
  show ?thesis
    by (intro conjI)
qed

subsection \<open>A duplicate send\<close>

text \<open>
  Claim C10. A send of a valid request whose fingerprint has a live idempotency record
  returns that record and changes neither the service nor the world: the rate limiter is
  not consulted (its per-identifier history and the remaining capacity it reports are
  the same afterwards) and nothing is logged, so no provider is called.
\<close>

theorem C10_duplicate_send_frame:
  assumes "validateEmail e = None"
    and "sentEmails s (fingerprint e options w) = Some record"
    and "\<not> expired (clock w) (idempotencyTtl s) record"
  shows "(let (res, s', w') = sendEmail e options s w
          in res = Inr (JObj record) \<and> s' = s \<and> w' = w
             \<and> requests (rateLimiter s') = requests (rateLimiter s)
             \<and> (\<forall>identifier now. getRemaining identifier now (rateLimiter s')
                                   = getRemaining identifier now (rateLimiter s))
             \<and> trace w' = trace w)"
  using assms by (simp add: sendEmail_def isDuplicate_def sentEmails_get_def Let_def)

theorem C10_duplicate_send_frame_witness:
  "validateEmail demo_email = None
   \<and> sentEmails demo_cached_service (fingerprint demo_email demo_options demo_world) = Some demo_record
   \<and> \<not> expired (clock demo_world) (idempotencyTtl demo_cached_service) demo_record
   \<and> (let (res, s', w') = sendEmail demo_email demo_options demo_cached_service demo_world
       in res = Inr (JObj demo_record) \<and> s' = demo_cached_service \<and> w' = demo_world
          \<and> requests (rateLimiter s') = requests (rateLimiter demo_cached_service)
          \<and> (\<forall>identifier now. getRemaining identifier now (rateLimiter s')
                                = getRemaining identifier now (rateLimiter demo_cached_service))
          \<and> trace w' = trace demo_world)"
proof -
  have h1: "validateEmail demo_email = None"
    by code_simp
  have h2: "sentEmails demo_cached_service (fingerprint demo_email demo_options demo_world)
              = Some demo_record"
    by code_simp
  have h3: "\<not> expired (clock demo_world) (idempotencyTtl demo_cached_service) demo_record"
    by code_simp
  from C10_duplicate_send_frame [OF h1 h2 h3] h1 h2 h3 show ?thesis
    by (intro conjI)
qed

subsection \<open>Fallback\<close>

text \<open>
  Claim C3. With the provider list [AlwaysFails, AlwaysSucceeds], a send that reaches the
  providers (the request is valid, has no live idempotency record and is admitted by the
  rate limiter) returns a result, not an error, and the result is a success that names
  AlwaysSucceeds as its provider. This holds whichever of the two providers is preferred
  and whatever the breaker of AlwaysFails is like; the breaker of AlwaysSucceeds is
  CLOSED, as it always is for a provider that never failed.
\<close>

theorem C3_fallback:
  assumes valid: "validateEmail e = None"
    and fresh: "\<not> fst (isDuplicate (fingerprint e options w) (clock w) s)"
    and admitted: "fst (isAllowed (Some (str_or (sender e) ''default'')) (clock w) (rateLimiter s))"
    and ps: "providers s = [pf, ps]" and pf: "always_fails pf" and pok: "always_succeeds ps"
    and cb: "circuitBreakers s 1 = Some cb" and closed: "state cb = CLOSED"
    and mr: "1 \<le> maxRetries s" and ru: "random_unit w"
  shows "\<exists>r s' w'. sendEmail e options s w = (Inr r, s', w')
           \<and> get_prop r ''provider'' = JStr (name ps) \<and> get_prop r ''success'' = JBool True"
proof -
  from sendEmail_fresh [OF valid fresh admitted] obtain s2 where
    run: "sendEmail e options s w = try_providers 0 None e (fingerprint e options w) s2 w"
    and f: "providers s2 = [pf, ps]" "maxRetries s2 = maxRetries s"
      "circuitBreakers s2 = circuitBreakers s"
    using ps by auto
  let ?key = "fingerprint e options w"
  let ?c = "currentProviderIndex s2"
  have cases: "?c mod Suc (Suc 0) = 0 \<or> ?c mod Suc (Suc 0) = Suc 0" by arith
  then show ?thesis
  proof
    assume c1: "?c mod Suc (Suc 0) = Suc 0"
    from sendWithRetry_succeeds [OF pok ru closed, of s2 e] mr f(2)
    obtain r cb' w' where sw: "sendWithRetry s2 e ps (Some cb) w = (Inr r, cb', w')"
      and r: "r \<noteq> JUndefined" "get_prop r ''provider'' = JStr (name ps)"
        "get_prop r ''success'' = JBool True"
      by auto
    have "\<exists>s'. try_providers 0 None e ?key s2 w = (Inr r, s', w')"
      using sw r(1) f cb c1 by (intro try_providers_step_success) simp_all
    with run r show ?thesis by auto
  next
    assume c0: "?c mod Suc (Suc 0) = 0"
    obtain res1 cb1 w1 where sw1: "sendWithRetry s2 e pf (circuitBreakers s2 0) w = (res1, cb1, w1)"
      by (cases "sendWithRetry s2 e pf (circuitBreakers s2 0) w") auto
    then have r1: "sendWithRetry_from 1 s2 e pf (circuitBreakers s2 0) w = (res1, cb1, w1)"
      by (simp add: sendWithRetry_def)
    from sendWithRetry_from_fails [OF r1 _ pf ru] mr f(2) obtain err where err: "res1 = Inl err"
      by auto
    from sendWithRetry_world [OF sw1] ru have ru1: "random_unit w1"
      by (simp add: random_unit_def)
    let ?s3 = "store_breaker 0 cb1 s2"
    have sw1': "sendWithRetry s2 e
        (providers s2 ! ((currentProviderIndex s2 + 0) mod length (providers s2)))
        (circuitBreakers s2 ((currentProviderIndex s2 + 0) mod length (providers s2))) w
        = (Inl err, cb1, w1)"
      using sw1 err f c0 by simp
    have step1: "try_providers 0 None e ?key s2 w = try_providers 1 (Some err) e ?key ?s3 w1"
      using try_providers_step_failure [OF _ sw1', of None ?key] f c0 by simp
    have cb3: "circuitBreakers ?s3 1 = Some cb"
      using cb f(3) by (simp add: store_breaker_def split: option.splits)
    from sendWithRetry_succeeds [OF pok ru1 closed, of ?s3 e] mr f(2)
    obtain r cb' w' where sw: "sendWithRetry ?s3 e ps (Some cb) w1 = (Inr r, cb', w')"
      and r: "r \<noteq> JUndefined" "get_prop r ''provider'' = JStr (name ps)"
        "get_prop r ''success'' = JBool True"
      by auto
    have a1: "(currentProviderIndex ?s3 + 1) mod length (providers ?s3) = 1"
      using c0 f(1) by (simp add: mod_Suc)
    have "\<exists>s'. try_providers 1 (Some err) e ?key ?s3 w1 = (Inr r, s', w')"
      using sw r(1) f(1) cb3 a1 by (intro try_providers_step_success) simp_all
    with run step1 r show ?thesis by auto
  qed
qed

theorem C3_fallback_witness:
  "validateEmail demo_email = None
   \<and> \<not> fst (isDuplicate (fingerprint demo_email demo_options demo_world) (clock demo_world)
              fallback_service)
   \<and> fst (isAllowed (Some (str_or (sender demo_email) ''default'')) (clock demo_world)
          (rateLimiter fallback_service))
   \<and> providers fallback_service = [alwaysFails, alwaysSucceeds]
   \<and> always_fails alwaysFails \<and> always_succeeds alwaysSucceeds
   \<and> circuitBreakers fallback_service 1 = Some (new_CircuitBreaker 5 60000)
   \<and> state (new_CircuitBreaker 5 60000) = CLOSED
   \<and> 1 \<le> maxRetries fallback_service \<and> random_unit demo_world
   \<and> (\<exists>r s' w'. sendEmail demo_email demo_options fallback_service demo_world = (Inr r, s', w')
          \<and> get_prop r ''provider'' = JStr (name alwaysSucceeds)
          \<and> get_prop r ''success'' = JBool True)"
proof -
  have h1: "validateEmail demo_email = None"
    by code_simp
  have h2: "\<not> fst (isDuplicate (fingerprint demo_email demo_options demo_world) (clock demo_world)
              fallback_service)"
    by code_simp
  have h3: "fst (isAllowed (Some (str_or (sender demo_email) ''default'')) (clock demo_world)
          (rateLimiter fallback_service))"
    by code_simp
  have h4: "providers fallback_service = [alwaysFails, alwaysSucceeds]"
    by (simp add: fallback_service_def)
  have h5: "always_fails alwaysFails"
    by code_simp
  have h6: "always_succeeds alwaysSucceeds"
    by code_simp
  have h7: "circuitBreakers fallback_service 1 = Some (new_CircuitBreaker 5 60000)"
    by code_simp
  have h8: "state (new_CircuitBreaker 5 60000) = CLOSED"
    by code_simp
  have h9: "1 \<le> maxRetries fallback_service"
    by code_simp
  have h10: "random_unit demo_world"
    by (simp add: random_unit_def demo_world_def)
  from C3_fallback [OF h1 h2 h3 h4 h5 h6 h7 h8 h9 h10] h1 h2 h3 h4 h5 h6 h7 h8 h9 h10
  show ?thesis
    by (intro conjI)
qed

subsection \<open>Exhaustion\<close>



subsection \<open>Attempts and the breaker\<close>

text \<open>
  Claim C9, as stated, fails: the retry loop is not inside \<open>execute\<close>. A service with
  the default three retries and one provider that is down enters that provider's
  breaker three times during one send, not once, and the breaker has counted three
  failures afterwards.
\<close>

theorem C9_execute_once_counterexample:
  "(case sendEmail demo_email demo_options (demo_service [down_provider]) demo_world of
      (res, s', w') \<Rightarrow>
        length (providers s') = 1
        \<and> execute_calls ''Provider-A'' w' = 3
        \<and> execute_calls ''Provider-A'' w' \<noteq> 1
        \<and> trace w' = [ExecuteCall ''Provider-A'', ProviderSend ''Provider-A'',
                       ExecuteCall ''Provider-A'', ProviderSend ''Provider-A'',
                       ExecuteCall ''Provider-A'', ProviderSend ''Provider-A'']
        \<and> map_option failureCount (circuitBreakers s' 0) = Some 3)"
  by (simp add: eval_defs)

text \<open>
  Claim C9, as amended. For each provider tried during one send, every attempt is a call
  of its own of that provider's \<open>CircuitBreaker.execute\<close> around one provider call, and
  the retry loop runs around these calls: \<open>sendWithRetry\<close> enters the breaker \<open>k\<close> times,
  once per attempt, with \<open>k\<close> between 1 and \<open>maxRetries\<close>, and the provider is called at
  most once per entry. What \<open>sendWithRetry\<close> returns is what its last attempt returned,
  so the last attempt's failure propagates. When it fails, all \<open>maxRetries\<close> attempts
  were made, and the backoff delays between them have passed on the clock.
\<close>

theorem C9_attempts_through_breaker:
  assumes mr: "1 \<le> maxRetries s" and ru: "random_unit w" and bd: "0 \<le> baseDelay s"
  shows "(case sendWithRetry s e p (Some cb) w of
            (res, cb', w') \<Rightarrow>
              \<exists>k. 1 \<le> k \<and> k \<le> maxRetries s
                \<and> execute_calls (name p) w' = execute_calls (name p) w + k
                \<and> provider_calls (name p) w' \<le> provider_calls (name p) w + k
                \<and> (\<exists>cb0 w0. guarded_send e p (Some cb0) w0 = (res, cb', w'))
                \<and> (isl res \<longrightarrow> k = maxRetries s
                       \<and> clock w + sum (backoff_floor s) {1..<maxRetries s} \<le> clock w'))"
proof -
  obtain res cb' w' where run: "sendWithRetry s e p (Some cb) w = (res, cb', w')"
    by (cases "sendWithRetry s e p (Some cb) w") auto
  then have r: "sendWithRetry_from 1 s e p (Some cb) w = (res, cb', w')"
    by (simp add: sendWithRetry_def)
  from sendWithRetry_from_counts [OF r mr] obtain k where k: "1 \<le> k" "k \<le> maxRetries s"
    "execute_calls (name p) w' = execute_calls (name p) w + k"
    "provider_calls (name p) w' \<le> provider_calls (name p) w + k"
    "isl res \<longrightarrow> k = maxRetries s"
    by (auto split: if_splits)
  from sendWithRetry_from_last_attempt [OF r mr] obtain cb0 w0 where
    "guarded_send e p cb0 w0 = (res, cb', w')" "cb0 \<noteq> None" by auto
  then have last: "\<exists>cb0 w0. guarded_send e p (Some cb0) w0 = (res, cb', w')" by auto
  have "isl res \<longrightarrow> clock w + sum (backoff_floor s) {1..<maxRetries s} \<le> clock w'"
    using sendWithRetry_from_backoff [OF r _ mr ru bd] by simp
  with k last have "\<exists>k. 1 \<le> k \<and> k \<le> maxRetries s
                \<and> execute_calls (name p) w' = execute_calls (name p) w + k
                \<and> provider_calls (name p) w' \<le> provider_calls (name p) w + k
                \<and> (\<exists>cb0 w0. guarded_send e p (Some cb0) w0 = (res, cb', w'))
                \<and> (isl res \<longrightarrow> k = maxRetries s
                       \<and> clock w + sum (backoff_floor s) {1..<maxRetries s} \<le> clock w')"
    by blast
  with run show ?thesis by simp
qed

theorem C9_attempts_through_breaker_witness:
  "1 \<le> maxRetries (demo_service [down_provider]) \<and> random_unit demo_world
   \<and> 0 \<le> baseDelay (demo_service [down_provider])
   \<and> (case sendWithRetry (demo_service [down_provider]) demo_email alwaysFails
               (Some (new_CircuitBreaker 5 60000)) demo_world of
         (res, cb', w') \<Rightarrow>
           \<exists>k. 1 \<le> k \<and> k \<le> maxRetries (demo_service [down_provider])
             \<and> execute_calls (name alwaysFails) w' = execute_calls (name alwaysFails) demo_world + k
             \<and> provider_calls (name alwaysFails) w' \<le> provider_calls (name alwaysFails) demo_world + k
             \<and> (\<exists>cb0 w0. guarded_send demo_email alwaysFails (Some cb0) w0 = (res, cb', w'))
             \<and> (isl res \<longrightarrow> k = maxRetries (demo_service [down_provider])
                    \<and> clock demo_world
                        + sum (backoff_floor (demo_service [down_provider]))
                            {1..<maxRetries (demo_service [down_provider])}
                      \<le> clock w'))"
proof -
  have h1: "1 \<le> maxRetries (demo_service [down_provider])"
    by code_simp
  have h2: "random_unit demo_world"
    by (simp add: random_unit_def demo_world_def)
  have h3: "0 \<le> baseDelay (demo_service [down_provider])"
    by code_simp
  from C9_attempts_through_breaker [OF h1 h2 h3] h1 h2 h3 show ?thesis
    by (intro conjI)
qed

subsection \<open>What a duplicate send returns\<close>

text \<open>
  Claim C2 fails on the code. The request of the repository's idempotency test is sent
  twice in a row to a service with the test's provider. The first send returns the
  provider's result, whose \<open>timestamp\<close> is the ISO string of the completion time. The
  duplicate returns the cached record, in which \<open>trackSentEmail\<close> has overwritten
  \<open>timestamp\<close> with the number \<open>Date.now()\<close>: the two values are not equal.
\<close>

theorem C2_duplicate_differs_from_original:
  "(case sendEmail demo_email demo_options (demo_service [test_provider]) demo_world of
      (r1, s1, w1) \<Rightarrow>
        (case sendEmail demo_email demo_options s1 w1 of
           (r2, s2, w2) \<Rightarrow>
             r1 = Inr (JObj [(''success'', JBool True),
                   (''messageId'', JStr ''TestProvider-3f2504e0-4f89-41d3-9a0c-0305e82c3300''),
                   (''provider'', JStr ''TestProvider''),
                   (''timestamp'', JStr ''2023-11-14T22:13:20.010Z''),
                   (''email'', JObj [(''to'', JStr ''test@example.com''),
                                     (''subject'', JStr ''Test Subject'')])])
             \<and> r2 = Inr (JObj [(''success'', JBool True),
                   (''messageId'', JStr ''TestProvider-3f2504e0-4f89-41d3-9a0c-0305e82c3300''),
                   (''provider'', JStr ''TestProvider''),
                   (''timestamp'', JNum 1700000000010),
                   (''email'', JObj [(''to'', JStr ''test@example.com''),
                                     (''subject'', JStr ''Test Subject'')])])
             \<and> r2 \<noteq> r1))"
  by code_simp

subsection \<open>Retries of the queue\<close>

text \<open>
  Claim C7 fails on the code. The queue's service has one provider, which is down; one
  email is enqueued and three passes run, each 1000 ms (the default interval) after the
  pass before, as \<open>startProcessing\<close> runs them. After the second pass the item is pending
  again with its second attempt made and \<open>nextAttempt\<close> 2000 ms after that failure. The third
  pass starts 1000 ms before that time, selects the item all the same and dispatches it:
  its third attempt is made and it ends as failed.
\<close>

theorem C7_retry_dispatched_before_nextAttempt:
  "(case addEmail demo_email demo_options demo_queue demo_world of
      (new_id, q0, w0) \<Rightarrow>
        (case processQueue q0 w0 of
           (q1, w1) \<Rightarrow>
             (case processQueue q1 (delay 1000 w1) of
                (q2, w2) \<Rightarrow>
                  (case processQueue q2 (delay 1000 w2) of
                     (q3, w3) \<Rightarrow>
                       map status (queue q2) = [Pending]
                       \<and> map attempts (queue q2) = [2]
                       \<and> map nextAttempt (queue q2) = [Some 1700000009350]
                       \<and> clock (delay 1000 w2) = 1700000008350
                       \<and> itemsToProcess q2 = [0]
                       \<and> map attempts (queue q3) = [3]
                       \<and> map status (queue q3) = [Failed]))))"
  by (simp add: eval_defs queue_defs)

text \<open>The selection of a pass never reads \<open>nextAttempt\<close>.\<close>

lemma itemsToProcess_ignores_nextAttempt:
  "itemsToProcess (q\<lparr>queue := map (\<lambda>item. item\<lparr>nextAttempt := f item\<rparr>) (queue q)\<rparr>)
   = itemsToProcess q"
proof -
  have "filter (\<lambda>i. status (map (\<lambda>item. item\<lparr>nextAttempt := f item\<rparr>) (queue q) ! i) = Pending)
          [0..<length (queue q)]
        = filter (\<lambda>i. status (queue q ! i) = Pending) [0..<length (queue q)]"
    by (rule filter_cong) auto
  then show ?thesis by (simp add: itemsToProcess_def)
qed

subsection \<open>Idempotency\<close>













subsection \<open>Queue order\<close>

lemma compare_items_le: "compare_items a b \<le> 0 \<longleftrightarrow> item_before a b"
  by (auto simp: compare_items_def item_before_def)

lemma compare_items_less: "compare_items a b < 0 \<longleftrightarrow> \<not> item_before b a"
  by (auto simp: compare_items_def item_before_def)

lemma item_before_trans: "item_before a b \<Longrightarrow> item_before b c \<Longrightarrow> item_before a c"
  by (auto simp: item_before_def)

lemma item_before_total: "item_before a b \<or> item_before b a"
  by (auto simp: item_before_def)

lemma set_insert_sorted: "set (insert_sorted cmp x ys) = insert x (set ys)"
  by (induction ys) auto

lemma sorted_insert_sorted:
  assumes "sorted_wrt item_before ys"
  shows "sorted_wrt item_before (insert_sorted compare_items x ys)"
  using assms
proof (induction ys)
  case Nil
  show ?case by simp
next
  case (Cons y ys)
  show ?case
  proof (cases "compare_items x y < 0")
    case True
    then have xy: "item_before x y"
      using item_before_total [of x y] by (simp add: compare_items_less)
    have "\<forall>z\<in>set ys. item_before x z"
      using Cons.prems xy item_before_trans by auto
    with True xy Cons.prems show ?thesis by simp
  next
    case False
    then have "item_before y x" by (simp add: compare_items_less)
    with False Cons show ?thesis by (auto simp: set_insert_sorted)
  qed
qed

lemma sorted_foldl_insert:
  assumes "sorted_wrt item_before acc"
  shows "sorted_wrt item_before (foldl (\<lambda>sorted_part x. insert_sorted compare_items x sorted_part) acc xs)"
  using assms by (induction xs arbitrary: acc) (simp_all add: sorted_insert_sorted)

lemma sorted_array_sort: "sorted_wrt item_before (array_sort compare_items xs)"
  by (simp add: array_sort_def sorted_foldl_insert)






lemma addEmail_sorted:
  "sorted_wrt item_before (queue (fst (snd (addEmail e options q w))))"
  by (simp add: addEmail_def generateId_def sortQueue_def sorted_array_sort Let_def
      split: prod.splits)



end
